theory Spec2Isabelle
  imports Complex_Main "HOL-Library.Word" "HOL-Library.Multiset"
begin

section \<open>plytodsm.c: point clouds to a digital surface model\<close>

text \<open>
  A shallow embedding of \<^verbatim>\<open>c/plytodsm.c\<close>. Each C function is a HOL function of the
  same name. What the C code leaves to its environment is made explicit:
  \<^item> \<^verbatim>\<open>float\<close> and \<^verbatim>\<open>double\<close> values are IEEE 754 binary32 and binary64 values,
    written as exact rationals plus the two infinities and NaN; every arithmetic operation
    rounds its exact result to nearest, ties to even (no fused multiply-add, no excess
    precision). The sign of a zero is not represented.
  \<^item> \<^verbatim>\<open>int\<close> is a HOL integer; a conversion from a floating value that does not fit the
    C type is undefined behaviour and is a branch of the model.
  \<^item> Calls that end the process (\<^verbatim>\<open>exit\<close>, a failed \<^verbatim>\<open>assert\<close>, \<^verbatim>\<open>fail\<close>) and
    undefined behaviour are values of the type \<open>halt\<close>.
\<close>

subsection \<open>Floating-point values\<close>

datatype fval = Fin rat | PInf | NInf | NaN

fun bitlen :: "nat \<Rightarrow> nat" where
  "bitlen n = (if n = 0 then 0 else Suc (bitlen (n div 2)))"

declare bitlen.simps [simp del]

text \<open>\<open>ilog2 q\<close> is the exponent \<open>e\<close> with \<open>2 ^ e \<le> q < 2 ^ (e + 1)\<close>, for \<open>q > 0\<close>.\<close>

definition ilog2 :: "rat \<Rightarrow> int" where
  "ilog2 q = (if 1 \<le> q then int (bitlen (nat \<lfloor>q\<rfloor>)) - 1
              else - int (bitlen (nat (\<lceil>1 / q\<rceil> - 1))))"

definition pow2 :: "int \<Rightarrow> rat" where
  "pow2 k = (if 0 \<le> k then 2 ^ nat k else 1 / 2 ^ nat (- k))"

definition round_even :: "rat \<Rightarrow> int" where
  "round_even q = (let f = \<lfloor>q\<rfloor>; d = q - of_int f in
     if d < 1 / 2 then f else if 1 / 2 < d then f + 1
     else if even f then f else f + 1)"

text \<open>
  Rounding to the format with \<open>p\<close> significand bits and exponent range \<open>emin .. emax\<close>:
  to nearest, ties to even, gradual underflow, overflow to an infinity. The result is
  \<open>n\<close> units of \<open>2 ^ (e - (p - 1))\<close>; it overflows when it reaches \<open>2 ^ (emax + 1)\<close>.
\<close>

definition round_to :: "nat \<Rightarrow> int \<Rightarrow> int \<Rightarrow> rat \<Rightarrow> fval" where
  "round_to p emin emax q =
    (if q = 0 then Fin 0
     else let e = max (ilog2 \<bar>q\<bar>) emin;
              u = pow2 (e - (int p - 1));
              n = round_even (q / u)
          in if emax < e \<or> (e = emax \<and> 2 ^ p \<le> \<bar>n\<bar>)
             then (if 0 < q then PInf else NInf)
             else Fin (of_int n * u))"

definition round32 :: "rat \<Rightarrow> fval" where
  "round32 = round_to 24 (- 126) 127"

definition round64 :: "rat \<Rightarrow> fval" where
  "round64 = round_to 53 (- 1022) 1023"

fun fneg :: "fval \<Rightarrow> fval" where
  "fneg (Fin a) = Fin (- a)"
| "fneg PInf = NInf"
| "fneg NInf = PInf"
| "fneg NaN = NaN"

fun fadd :: "(rat \<Rightarrow> fval) \<Rightarrow> fval \<Rightarrow> fval \<Rightarrow> fval" where
  "fadd rnd (Fin a) (Fin b) = rnd (a + b)"
| "fadd rnd NaN y = NaN"
| "fadd rnd x NaN = NaN"
| "fadd rnd PInf NInf = NaN"
| "fadd rnd NInf PInf = NaN"
| "fadd rnd PInf y = PInf"
| "fadd rnd x PInf = PInf"
| "fadd rnd NInf y = NInf"
| "fadd rnd x NInf = NInf"

definition fsub :: "(rat \<Rightarrow> fval) \<Rightarrow> fval \<Rightarrow> fval \<Rightarrow> fval" where
  "fsub rnd x y = fadd rnd x (fneg y)"

definition signed_inf :: "bool \<Rightarrow> fval" where
  "signed_inf pos = (if pos then PInf else NInf)"

fun fmul :: "(rat \<Rightarrow> fval) \<Rightarrow> fval \<Rightarrow> fval \<Rightarrow> fval" where
  "fmul rnd (Fin a) (Fin b) = rnd (a * b)"
| "fmul rnd NaN y = NaN"
| "fmul rnd x NaN = NaN"
| "fmul rnd (Fin a) PInf = (if a = 0 then NaN else signed_inf (0 < a))"
| "fmul rnd (Fin a) NInf = (if a = 0 then NaN else signed_inf (a < 0))"
| "fmul rnd PInf (Fin b) = (if b = 0 then NaN else signed_inf (0 < b))"
| "fmul rnd NInf (Fin b) = (if b = 0 then NaN else signed_inf (b < 0))"
| "fmul rnd PInf PInf = PInf"
| "fmul rnd NInf NInf = PInf"
| "fmul rnd PInf NInf = NInf"
| "fmul rnd NInf PInf = NInf"

text \<open>
  Division by a zero: the quotient's sign is that of the dividend, the zero taken as
  positive. The program converts every such quotient to \<^verbatim>\<open>int\<close>, which is undefined for
  either infinity.
\<close>

fun fdiv :: "(rat \<Rightarrow> fval) \<Rightarrow> fval \<Rightarrow> fval \<Rightarrow> fval" where
  "fdiv rnd (Fin a) (Fin b) =
     (if b = 0 then (if a = 0 then NaN else signed_inf (0 < a)) else rnd (a / b))"
| "fdiv rnd NaN y = NaN"
| "fdiv rnd x NaN = NaN"
| "fdiv rnd (Fin a) PInf = Fin 0"
| "fdiv rnd (Fin a) NInf = Fin 0"
| "fdiv rnd PInf (Fin b) = signed_inf (0 \<le> b)"
| "fdiv rnd NInf (Fin b) = signed_inf (b < 0)"
| "fdiv rnd PInf y = NaN"
| "fdiv rnd NInf y = NaN"

text \<open>\<^verbatim>\<open>a <= b\<close> on floating values: false when either is NaN.\<close>

fun fle :: "fval \<Rightarrow> fval \<Rightarrow> bool" where
  "fle (Fin a) (Fin b) = (a \<le> b)"
| "fle NaN y = False"
| "fle x NaN = False"
| "fle NInf y = True"
| "fle x PInf = True"
| "fle PInf y = False"
| "fle x NInf = False"

fun isfinite :: "fval \<Rightarrow> bool" where
  "isfinite (Fin a) = True"
| "isfinite x = False"

text \<open>Conversion to an integer type discards the fractional part (C11 6.3.1.4).\<close>

definition trunc :: "rat \<Rightarrow> int" where
  "trunc q = (if 0 \<le> q then \<lfloor>q\<rfloor> else \<lceil>q\<rceil>)"

fun to_int :: "fval \<Rightarrow> int option" where
  "to_int (Fin q) =
     (if - (2 ^ 31) \<le> trunc q \<and> trunc q < 2 ^ 31 then Some (trunc q) else None)"
| "to_int x = None"

fun to_uint :: "fval \<Rightarrow> nat option" where
  "to_uint (Fin q) =
     (if 0 \<le> trunc q \<and> trunc q < 2 ^ 32 then Some (nat (trunc q)) else None)"
| "to_uint x = None"

fun to_float :: "fval \<Rightarrow> fval" where
  "to_float (Fin q) = round32 q"
| "to_float x = x"

subsection \<open>Mapping a coordinate to a cell index\<close>

text \<open>
  \<^verbatim>\<open>rescale_float_to_int(x, min, max, w, &flag)\<close> returns \<open>r\<close> and the flag; \<open>None\<close>
  is the undefined conversion of the quotient to \<^verbatim>\<open>int\<close>.
\<close>

definition rescale_float_to_int :: "fval \<Rightarrow> fval \<Rightarrow> fval \<Rightarrow> int \<Rightarrow> (int \<times> bool) option" where
  "rescale_float_to_int x mn mx wd =
     (case to_int (fdiv round64 (fmul round64 (round64 (of_int wd)) (fsub round64 x mn))
                                (fsub round64 mx mn)) of
        None \<Rightarrow> None
      | Some r \<Rightarrow> Some (r, \<not> r < 0 \<and> \<not> wd \<le> r))"

subsection \<open>The accumulation grid\<close>

record images =
  cnt :: "fval list"
  avg :: "fval list"
  w :: int
  h :: int

text \<open>
  \<^verbatim>\<open>add_height_to_images\<close>: the index is computed in \<^verbatim>\<open>uint64_t\<close>; a write outside
  the arrays is undefined behaviour (\<open>None\<close>).
\<close>

definition add_height_to_images :: "images \<Rightarrow> int \<Rightarrow> int \<Rightarrow> fval \<Rightarrow> images option" where
  "add_height_to_images x i j v =
     (let k = unat (word_of_int (w x) * word_of_int j + word_of_int i :: 64 word) in
      if k < length (avg x) \<and> k < length (cnt x) then
        Some (x\<lparr>avg := (avg x)[k := fdiv round32
                          (fadd round32 v (fmul round32 (cnt x ! k) (avg x ! k)))
                          (fadd round32 (Fin 1) (cnt x ! k))],
                cnt := (cnt x)[k := fadd round32 (cnt x ! k) (Fin 1)]\<rparr>)
      else None)"

subsection \<open>Strings and formatted scanning\<close>

text \<open>
  A C string is a HOL string; a buffer filled by \<^verbatim>\<open>fgets\<close> is read up to its first NUL.
  The fixed sizes of the character arrays of the source (\<^verbatim>\<open>char utm[3]\<close>,
  \<^verbatim>\<open>char tile_dir[1000]\<close>, \<^verbatim>\<open>char name[0x100]\<close>, \<^verbatim>\<open>t[100]\<close>) are not represented.
\<close>

definition nl :: char where
  "nl = CHR 0x0A"

definition cstr :: "string \<Rightarrow> string" where
  "cstr s = takeWhile (\<lambda>c. c \<noteq> CHR 0x00) s"

definition isspace :: "char \<Rightarrow> bool" where
  "isspace c \<longleftrightarrow> c \<in> set [CHR '' '', CHR 0x09, CHR 0x0A, CHR 0x0B, CHR 0x0C, CHR 0x0D]"

text \<open>
  The directives of a \<^verbatim>\<open>scanf\<close> format: an ordinary character, white space, and
  \<^verbatim>\<open>%s\<close>. \<open>sscanf ds s\<close> is the list of the strings converted, in order; its
  length is the value the C function returns when that is not \<^verbatim>\<open>EOF\<close>.
\<close>

datatype directive = Lit char | Space | Conv_s

definition directive_of :: "char \<Rightarrow> directive" where
  "directive_of c = (if isspace c then Space else Lit c)"

fun fmt :: "string \<Rightarrow> directive list" where
  "fmt (c # d # cs) =
     (if c = CHR ''%'' \<and> d = CHR ''s'' then Conv_s # fmt cs
      else directive_of c # fmt (d # cs))"
| "fmt [c] = [directive_of c]"
| "fmt [] = []"

fun sscanf :: "directive list \<Rightarrow> string \<Rightarrow> string list" where
  "sscanf [] s = []"
| "sscanf (Lit c # ds) s =
     (case s of [] \<Rightarrow> [] | a # s' \<Rightarrow> if a = c then sscanf ds s' else [])"
| "sscanf (Space # ds) s = sscanf ds (dropWhile isspace s)"
| "sscanf (Conv_s # ds) s =
     (let s' = dropWhile isspace s;
          tok = takeWhile (\<lambda>c. \<not> isspace c) s'
      in if tok = [] then [] else tok # sscanf ds (dropWhile (\<lambda>c. \<not> isspace c) s'))"

subsection \<open>Files\<close>

text \<open>
  A file is its bytes, together with what the C library's number scanning reads from it:
  \<open>scanned\<close> lists the values that successive \<^verbatim>\<open>%f\<close> or \<^verbatim>\<open>%lf\<close> conversions
  convert (for an extent file from its start, for a point cloud from the end of its
  header), and \<open>ending\<close> says what follows the last of them: text that is no number
  (\<open>Garbage\<close>), or the end of the file, reached while the last number was read
  (\<open>End_tight\<close>) or only after more white space (\<open>End_loose\<close>).
\<close>

datatype ending = Garbage | End_tight | End_loose

record disk_file =
  content :: string
  scanned :: "fval list"
  ending :: ending

text \<open>An open \<^verbatim>\<open>FILE *\<close>: what is left to read, and the end-of-file indicator.\<close>

record stream =
  input :: string
  numbers :: "fval list"
  rest :: ending
  eof :: bool

definition fopen :: "disk_file \<Rightarrow> stream" where
  "fopen f = \<lparr>input = content f, numbers = scanned f, rest = ending f, eof = False\<rparr>"

text \<open>
  \<^verbatim>\<open>fgets(buf, N, f)\<close> reads at most \<open>N - 1\<close> characters, up to and including the
  first newline; it returns \<^verbatim>\<open>NULL\<close> (\<open>None\<close>) when there is nothing left.
\<close>

definition fgets :: "nat \<Rightarrow> stream \<Rightarrow> string option \<times> stream" where
  "fgets N f =
     (let inp = input f in
      if inp = [] then (None, f\<lparr>eof := True\<rparr>)
      else let pre = takeWhile (\<lambda>c. c \<noteq> nl) (take (N - 1) inp);
               line = (if length pre < N - 1 \<and> length pre < length inp then pre @ [nl] else pre)
           in (Some line,
               f\<lparr>input := drop (length line) inp,
                 eof := eof f \<or> (length pre = length inp \<and> length pre < N - 1)\<rparr>))"

text \<open>\<^verbatim>\<open>fread(&X, k, 1, f)\<close>: the \<open>k\<close> bytes, or a short read.\<close>

definition fread :: "nat \<Rightarrow> stream \<Rightarrow> string option \<times> stream" where
  "fread k f =
     (if k \<le> length (input f) then (Some (take k (input f)), f\<lparr>input := drop k (input f)\<rparr>)
      else (None, f\<lparr>input := [], eof := True\<rparr>))"

text \<open>\<^verbatim>\<open>fscanf(f, "%lf", &d)\<close>: the value it returns and the number converted.\<close>

definition fscanf_lf :: "stream \<Rightarrow> int \<times> fval option \<times> stream" where
  "fscanf_lf f =
     (case numbers f of
        v # vs \<Rightarrow> (1, Some v, f\<lparr>numbers := vs, eof := eof f \<or> (vs = [] \<and> rest f = End_tight)\<rparr>)
      | [] \<Rightarrow> (if rest f = Garbage then (0, None, f) else (- 1, None, f\<lparr>eof := True\<rparr>)))"

subsection \<open>The header of a point cloud\<close>

datatype ptype = UCHAR | FLOAT | DOUBLE | UNKNOWN

record ply_property =
  type :: ptype
  name :: string
  len :: "nat option"

text \<open>
  \<^verbatim>\<open>parse_property_line\<close> returns whether both strings were converted. Only then is the
  entry it fills counted by its caller; otherwise the entry is overwritten by the next
  call or never read, so the model returns it only in that case. \<open>len\<close> is not assigned
  for an unknown type.
\<close>

definition parse_property_line :: "string \<Rightarrow> ply_property option" where
  "parse_property_line buf =
     (case sscanf (fmt (''property %s %s'' @ [nl])) buf of
        [typename, nm] \<Rightarrow>
          Some (if typename = ''uchar'' then \<lparr>type = UCHAR, name = nm, len = Some 1\<rparr>
                else if typename = ''float'' then \<lparr>type = FLOAT, name = nm, len = Some 4\<rparr>
                else if typename = ''double'' then \<lparr>type = DOUBLE, name = nm, len = Some 8\<rparr>
                else \<lparr>type = UNKNOWN, name = nm, len = None\<rparr>)
      | _ \<Rightarrow> None)"

text \<open>The value of \<^verbatim>\<open>FILENAME_MAX\<close> in the C library's \<^verbatim>\<open>stdio.h\<close>.\<close>

definition FILENAME_MAX :: nat where
  "FILENAME_MAX = 4096"

text \<open>
  One line of the header: the new values of \<^verbatim>\<open>*isbin\<close>, of the properties counted so
  far (\<open>n\<close> is their number) and of \<^verbatim>\<open>utm\<close>.
\<close>

definition header_line :: "string \<Rightarrow> bool \<times> ply_property list \<times> string \<Rightarrow> bool \<times> ply_property list \<times> string" where
  "header_line buf st =
     (case st of (isbin, t, utm) \<Rightarrow>
      if buf = ''format binary_little_endian 1.0'' @ [nl] then (True, t, utm)
      else if buf = ''format ascii 1.0'' @ [nl] then (False, t, utm)
      else (case parse_property_line buf of
              Some p \<Rightarrow> (isbin, t @ [p], utm)
            | None \<Rightarrow>
                if take 19 buf = ''comment projection:'' then
                  (case sscanf (fmt ''comment projection: UTM %s'') buf of
                     [z] \<Rightarrow> (isbin, t, z)
                   | _ \<Rightarrow> (isbin, t, utm))
                else (isbin, t, utm)))"

lemma fgets_shorter:
  assumes "fgets N f = (Some line, f')" "2 \<le> N"
  shows "length (input f') < length (input f)"
proof -
  from assms(1) have ne: "input f \<noteq> []"
    by (auto simp: fgets_def Let_def split: if_splits)
  define pre where "pre = takeWhile (\<lambda>c. c \<noteq> nl) (take (N - 1) (input f))"
  have "line \<noteq> []"
  proof (cases "pre = []")
    case True
    with ne assms show ?thesis
      by (auto simp: fgets_def Let_def pre_def split: if_splits)
  next
    case False
    with ne assms show ?thesis
      by (auto simp: fgets_def Let_def pre_def split: if_splits)
  qed
  moreover from assms(1) ne have "input f' = drop (length line) (input f)"
    by (auto simp: fgets_def Let_def split: if_splits)
  ultimately show ?thesis
    using ne by simp
qed

function header_loop :: "stream \<Rightarrow> bool \<times> ply_property list \<times> string
    \<Rightarrow> (bool \<times> ply_property list \<times> string) \<times> stream" where
  "header_loop f st =
     (case fgets FILENAME_MAX f of
        (None, f') \<Rightarrow> (st, f')
      | (Some buf, f') \<Rightarrow>
          if cstr buf = ''end_header'' @ [nl] then (header_line (cstr buf) st, f')
          else header_loop f' (header_line (cstr buf) st))"
  by pat_completeness auto
termination
  by (relation "measure (\<lambda>(f, st). length (input f))")
     (auto simp: FILENAME_MAX_def dest!: fgets_shorter [OF sym])

declare header_loop.simps [simp del]

text \<open>
  \<^verbatim>\<open>header_get_record_length_and_utm_zone(f_in, utm, &isbin, t)\<close>: the properties
  (their number is the value returned), \<^verbatim>\<open>*isbin\<close>, the contents of \<^verbatim>\<open>utm\<close>
  afterwards, and the file positioned after the header.
\<close>

definition header_get_record_length_and_utm_zone ::
    "stream \<Rightarrow> string \<Rightarrow> (bool \<times> ply_property list \<times> string) \<times> stream" where
  "header_get_record_length_and_utm_zone f_in utm = header_loop f_in (False, [], utm)"

subsection \<open>Reading records\<close>

text \<open>
  The bytes of a binary record are the object representation of the C value on a
  little-endian machine: an IEEE 754 value with \<open>m\<close> fraction bits and \<open>e\<close> exponent
  bits.
\<close>

definition le_nat :: "string \<Rightarrow> nat" where
  "le_nat bs = foldr (\<lambda>c n. of_char c + 256 * n) bs 0"

definition decode_ieee :: "nat \<Rightarrow> nat \<Rightarrow> string \<Rightarrow> fval" where
  "decode_ieee m e bs =
     (let n = le_nat bs;
          sign = n div 2 ^ (m + e);
          ex = (n div 2 ^ m) mod 2 ^ e;
          frac = n mod 2 ^ m;
          bias = 2 ^ (e - 1) - 1
      in if ex = 2 ^ e - 1 then (if frac = 0 then signed_inf (sign = 0) else NaN)
         else let v = (if ex = 0 then of_nat frac * pow2 (1 - int bias - int m)
                       else of_nat (2 ^ m + frac) * pow2 (int ex - int bias - int m))
              in Fin (if sign = 0 then v else - v))"

definition decode :: "ptype \<Rightarrow> string \<Rightarrow> fval" where
  "decode ty bs =
     (case ty of
        UCHAR \<Rightarrow> Fin (of_nat (le_nat bs))
      | FLOAT \<Rightarrow> decode_ieee 23 8 bs
      | DOUBLE \<Rightarrow> decode_ieee 52 11 bs
      | UNKNOWN \<Rightarrow> NaN)"

definition sizeof :: "ptype \<Rightarrow> nat" where
  "sizeof ty = (case ty of UCHAR \<Rightarrow> 1 | FLOAT \<Rightarrow> 4 | DOUBLE \<Rightarrow> 8 | UNKNOWN \<Rightarrow> 0)"

text \<open>
  The array \<^verbatim>\<open>double data[n]\<close>: an entry is \<open>None\<close> while its value is indeterminate
  (never written, or written from a variable that a short read left unset).
\<close>

type_synonym record_data = "fval option list"

text \<open>
  The binary branch of \<^verbatim>\<open>get_record\<close>, from property \<open>i\<close> on: one \<^verbatim>\<open>fread\<close> per
  property of a known type; a property of unknown type reads nothing and adds nothing
  to \<^verbatim>\<open>rec\<close>.
\<close>

fun get_record_bin :: "ply_property list \<Rightarrow> nat \<Rightarrow> record_data \<Rightarrow> stream \<Rightarrow> int \<times> record_data \<times> stream" where
  "get_record_bin [] i data f = (0, data, f)"
| "get_record_bin (p # ps) i data f =
     (if type p = UNKNOWN then get_record_bin ps (Suc i) data f
      else (case fread (sizeof (type p)) f of
              (X, f') \<Rightarrow>
                (case get_record_bin ps (Suc i) (data[i := map_option (decode (type p)) X]) f' of
                   (r, data', f'') \<Rightarrow> ((if X = None then 0 else 1) + r, data', f''))))"

text \<open>The text branch: at most \<open>m\<close> more conversions, while the end of the file is not seen.\<close>

fun get_record_ascii :: "nat \<Rightarrow> nat \<Rightarrow> record_data \<Rightarrow> stream \<Rightarrow> int \<times> record_data \<times> stream" where
  "get_record_ascii 0 i data f = (0, data, f)"
| "get_record_ascii (Suc m) i data f =
     (if eof f then (0, data, f)
      else (case fscanf_lf f of
              (c, v, f') \<Rightarrow>
                (case get_record_ascii m (Suc i) (case v of None \<Rightarrow> data | Some d \<Rightarrow> data[i := Some d]) f' of
                   (r, data', f'') \<Rightarrow> (c + r, data', f''))))"

definition get_record :: "stream \<Rightarrow> bool \<Rightarrow> ply_property list \<Rightarrow> nat \<Rightarrow> record_data
    \<Rightarrow> int \<times> record_data \<times> stream" where
  "get_record f_in isbin t n data =
     (if isbin then get_record_bin (take n t) 0 data f_in
      else get_record_ascii n 0 data f_in)"

subsection \<open>Accumulating the points of a file\<close>

text \<open>
  What ends the process: \<^verbatim>\<open>exit(status)\<close>, a failed \<^verbatim>\<open>assert\<close>, a call of
  \<^verbatim>\<open>fail\<close> (its source file \<^verbatim>\<open>fail.c\<close> is not part of the core), and undefined
  behaviour.
\<close>

datatype halt = Exit int | Abort | Fail | Undefined

datatype msg =
    Usage
  | Bounds fval fval fval fval
  | Cant_read_extrema string
  | Cant_read_tiles string
  | Cant_open_ply string
  | Different_utm
  | Bad_col_idx int

text \<open>Reading \<^verbatim>\<open>data[k]\<close>: outside the array, or an indeterminate value, gives \<open>None\<close>.\<close>

definition rd :: "record_data \<Rightarrow> nat \<Rightarrow> fval option" where
  "rd data k = (if k < length data then data ! k else None)"

text \<open>
  The body of the loop of \<^verbatim>\<open>add_ply_points_to_images\<close>, for one record. The bounds
  are \<^verbatim>\<open>float\<close>s, promoted to \<^verbatim>\<open>double\<close> without change; \<^verbatim>\<open>data[2]\<close> is converted
  to \<^verbatim>\<open>float\<close> for the call, and the assertion follows the call.
\<close>

definition add_point :: "images \<Rightarrow> fval \<Rightarrow> fval \<Rightarrow> fval \<Rightarrow> fval \<Rightarrow> int \<Rightarrow> record_data \<Rightarrow> halt + images" where
  "add_point x xmin xmax ymin ymax col_idx data =
     (case rd data 0 of None \<Rightarrow> Inl Undefined | Some d0 \<Rightarrow>
      case rescale_float_to_int d0 xmin xmax (w x) of None \<Rightarrow> Inl Undefined | Some (i, flag1) \<Rightarrow>
      case rd data 1 of None \<Rightarrow> Inl Undefined | Some d1 \<Rightarrow>
      case rescale_float_to_int (fneg d1) (fneg ymax) (fneg ymin) (h x) of
        None \<Rightarrow> Inl Undefined
      | Some (j, flag2) \<Rightarrow>
          if flag1 \<and> flag2 then
            if col_idx = 2 then
              (case rd data 2 of None \<Rightarrow> Inl Undefined | Some d2 \<Rightarrow>
               case add_height_to_images x i j (to_float d2) of
                 None \<Rightarrow> Inl Undefined
               | Some x' \<Rightarrow> if isfinite d2 then Inr x' else Inl Abort)
            else
              (case rd data (nat col_idx) of None \<Rightarrow> Inl Undefined | Some dc \<Rightarrow>
               case to_uint dc of None \<Rightarrow> Inl Undefined | Some rgb \<Rightarrow>
               case add_height_to_images x i j (round32 (of_nat rgb)) of
                 None \<Rightarrow> Inl Undefined
               | Some x' \<Rightarrow> Inr x')
          else Inr x)"

lemma get_record_bin_consumes:
  "get_record_bin ps i data f = (r, data', f') \<Longrightarrow>
     r \<le> int (length ps) \<and> numbers f' = numbers f \<and> length (input f') \<le> length (input f)
     \<and> (r = int (length ps) \<and> ps \<noteq> [] \<longrightarrow> length (input f') < length (input f))"
proof (induction ps arbitrary: i data f r data' f')
  case Nil
  then show ?case by simp
next
  case (Cons p ps)
  show ?case
  proof (cases "type p = UNKNOWN")
    case True
    with Cons.prems have "get_record_bin ps (Suc i) data f = (r, data', f')"
      by simp
    from Cons.IH [OF this] show ?thesis
      by auto
  next
    case False
    obtain X g where fr: "fread (sizeof (type p)) f = (X, g)"
      by (cases "fread (sizeof (type p)) f")
    obtain r0 where rest: "get_record_bin ps (Suc i) (data[i := map_option (decode (type p)) X]) g = (r0, data', f')"
      and r: "r = (if X = None then 0 else 1) + r0"
      using Cons.prems False fr by (auto split: prod.splits)
    have sz: "0 < sizeof (type p)"
      using False by (cases "type p") (auto simp: sizeof_def)
    from fr sz have g: "numbers g = numbers f" "length (input g) \<le> length (input f)"
      "X \<noteq> None \<Longrightarrow> length (input g) < length (input f)"
      by (auto simp: fread_def split: if_splits)
    from Cons.IH [OF rest] g r show ?thesis
      by (auto split: if_splits)
  qed
qed

lemma get_record_ascii_consumes:
  "get_record_ascii m i data f = (r, data', f') \<Longrightarrow>
     r \<le> int m \<and> input f' = input f \<and> length (numbers f') \<le> length (numbers f)
     \<and> (r = int m \<and> 0 < m \<longrightarrow> length (numbers f') < length (numbers f))"
proof (induction m arbitrary: i data f r data' f')
  case 0
  then show ?case by simp
next
  case (Suc m)
  show ?case
  proof (cases "eof f")
    case True
    with Suc.prems show ?thesis by auto
  next
    case False
    obtain c v g where sc: "fscanf_lf f = (c, v, g)"
      by (cases "fscanf_lf f")
    obtain r0 where rest: "get_record_ascii m (Suc i) (case v of None \<Rightarrow> data | Some d \<Rightarrow> data[i := Some d]) g = (r0, data', f')"
      and r: "r = c + r0"
      using Suc.prems False sc by (auto split: prod.splits)
    from sc have g: "input g = input f" "length (numbers g) \<le> length (numbers f)" "c \<le> 1"
      "c = 1 \<Longrightarrow> length (numbers g) < length (numbers f)"
      by (auto simp: fscanf_lf_def split: list.splits if_splits)
    from Suc.IH [OF rest] g r show ?thesis
      by auto
  qed
qed

lemma get_record_consumes:
  assumes "get_record f isbin t n data = (int n, data', f')" "0 < n"
  shows "length (input f') + length (numbers f') < length (input f) + length (numbers f)"
proof (cases isbin)
  case True
  with assms have g: "get_record_bin (take n t) 0 data f = (int n, data', f')"
    by (simp add: get_record_def)
  from get_record_bin_consumes [OF g] assms(2) have "int n \<le> int (length (take n t))"
    by simp
  then have "length (take n t) = n"
    by simp
  with get_record_bin_consumes [OF g] assms(2) show ?thesis
    by auto
next
  case False
  with assms have g: "get_record_ascii n 0 data f = (int n, data', f')"
    by (simp add: get_record_def)
  from get_record_ascii_consumes [OF g] assms(2) show ?thesis
    by auto
qed

lemma add_point_no_data: "add_point x xmin xmax ymin ymax col_idx [] = Inl Undefined"
  by (simp add: add_point_def rd_def)

lemma get_record_no_data:
  "get_record f isbin t 0 [] = (r, data', f') \<Longrightarrow> data' = []"
  by (cases isbin) (auto simp: get_record_def)

text \<open>
  The loop \<^verbatim>\<open>while (n == get_record(f, isbin, t, n, data))\<close>. With \<open>n = 0\<close> the array
  has no element and the first pass reads outside it.
\<close>

function points_loop :: "images \<Rightarrow> fval \<Rightarrow> fval \<Rightarrow> fval \<Rightarrow> fval \<Rightarrow> int \<Rightarrow> bool \<Rightarrow> ply_property list
    \<Rightarrow> nat \<Rightarrow> record_data \<Rightarrow> stream \<Rightarrow> halt + images" where
  "points_loop x xmin xmax ymin ymax col_idx isbin t n data f =
     (case get_record f isbin t n data of
        (r, data', f') \<Rightarrow>
          if int n = r then
            (if n = 0 then Inl Undefined
             else case add_point x xmin xmax ymin ymax col_idx data' of
                    Inl e \<Rightarrow> Inl e
                  | Inr x' \<Rightarrow> points_loop x' xmin xmax ymin ymax col_idx isbin t n data' f')
          else Inr x)"
  by pat_completeness auto
termination
  by (relation "measure (\<lambda>(x, xmin, xmax, ymin, ymax, col_idx, isbin, t, n, data, f).
        length (input f) + length (numbers f))")
     (auto dest!: get_record_consumes [OF sym])

declare points_loop.simps [simp del]

text \<open>
  The environment of a run: the file system, whether \<^verbatim>\<open>xmalloc\<close> (its source file
  \<^verbatim>\<open>xmalloc.c\<close> is not part of the core) obtains a block of the given size in bytes or
  calls \<^verbatim>\<open>fail\<close>, and the indeterminate values that uninitialised local variables
  hold: the array \<^verbatim>\<open>utm\<close> of the call of \<^verbatim>\<open>add_ply_points_to_images\<close> on the named
  file, the array \<^verbatim>\<open>utm\<close> of \<^verbatim>\<open>main\<close>, and its four \<^verbatim>\<open>local_\<close> extents.
\<close>

record env =
  fs :: "string \<Rightarrow> disk_file option"
  xmalloc_ok :: "nat \<Rightarrow> bool"
  stack_utm :: "string \<Rightarrow> string"
  main_utm :: string
  main_extent :: "fval \<times> fval \<times> fval \<times> fval"

text \<open>The number of characters \<^verbatim>\<open>%d\<close> prints.\<close>

fun digits :: "nat \<Rightarrow> nat" where
  "digits n = (if n < 10 then 1 else Suc (digits (n div 10)))"

declare digits.simps [simp del]

definition dec_len :: "int \<Rightarrow> nat" where
  "dec_len i = (if i < 0 then Suc (digits (nat (- i))) else digits (nat i))"

text \<open>
  \<^verbatim>\<open>add_ply_points_to_images\<close>: the messages written to \<^verbatim>\<open>stderr\<close> and either the
  updated images or the end of the process. \<^verbatim>\<open>strncmp(utm_zone, utm, 3)\<close> compares the
  first three characters. The status of \<^verbatim>\<open>exit\<close> is the value of \<^verbatim>\<open>fprintf\<close>, the
  number of characters of the message \<^verbatim>\<open>"error: bad col_idx %d\n"\<close>.
\<close>

definition add_ply_points_to_images :: "env \<Rightarrow> images \<Rightarrow> fval \<Rightarrow> fval \<Rightarrow> fval \<Rightarrow> fval
    \<Rightarrow> string \<Rightarrow> string \<Rightarrow> int \<Rightarrow> msg list \<times> (halt + images)" where
  "add_ply_points_to_images E x xmin xmax ymin ymax utm_zone fname col_idx =
     (case fs E fname of
        None \<Rightarrow> ([Cant_open_ply fname], Inr x)
      | Some file \<Rightarrow>
          (case header_get_record_length_and_utm_zone (fopen file) (stack_utm E fname) of
             ((isbin, t, utm), f) \<Rightarrow>
               let warn = (if take 3 utm_zone \<noteq> take 3 utm then [Different_utm] else []) in
               if col_idx < 2 \<or> 5 < col_idx then
                 (warn @ [Bad_col_idx col_idx], Inl (Exit (int (19 + dec_len col_idx + 1))))
               else
                 (warn, points_loop x xmin xmax ymin ymax col_idx isbin t (length t)
                          (replicate (length t) None) f)))"

subsection \<open>The program\<close>

text \<open>
  The arguments after \<^verbatim>\<open>pick_option\<close> has removed \<^verbatim>\<open>-c column\<close>: their number
  \<^verbatim>\<open>c\<close>, the column (\<^verbatim>\<open>atoi\<close> of the option, 2 by default), and the values that
  \<^verbatim>\<open>atof\<close> reads from \<^verbatim>\<open>v[1]\<close> and \<^verbatim>\<open>v[4]\<close> to \<^verbatim>\<open>v[7]\<close>, as \<^verbatim>\<open>float\<close>s.
\<close>

record argv =
  a_c :: int
  a_col_idx :: int
  a_resolution :: fval
  a_out_dsm :: string
  a_tiles :: string
  a_xmin :: fval
  a_xmax :: fval
  a_ymin :: fval
  a_ymax :: fval

text \<open>
  What the loop over the list of tiles changes: the four \<^verbatim>\<open>local_\<close> extents, \<^verbatim>\<open>utm\<close>,
  the list \<^verbatim>\<open>l\<close> and the messages written.
\<close>

record selection =
  sel_ext :: "fval \<times> fval \<times> fval \<times> fval"
  sel_utm :: string
  sel_l :: "string list"
  sel_log :: "msg list"

text \<open>
  Modelled from the spec: \<^verbatim>\<open>push\<close> of \<^verbatim>\<open>lists.c\<close>, which is not part of the core.
  The spec: ``Order of the output sequence matches the order tiles appear in the input
  list (stable, not sorted).''
\<close>

definition push :: "string list \<Rightarrow> string \<Rightarrow> string list" where
  "push l s = l @ [s]"

text \<open>
  The buffer after \<^verbatim>\<open>strtok(tile_dir, "\n")\<close>: the end of the first token becomes the
  end of the string; a buffer with no token is left as it is.
\<close>

definition strtok_nl :: "string \<Rightarrow> string" where
  "strtok_nl s =
     (let s' = dropWhile (\<lambda>c. c = nl) s in
      if s' = [] then s else takeWhile (\<lambda>c. c = nl) s @ takeWhile (\<lambda>c. c \<noteq> nl) s')"

text \<open>
  \<^verbatim>\<open>fscanf(f, "%f %f %f %f", &a, &b, &c, &d)\<close> assigns as many variables as it converts
  numbers; its value is not looked at.
\<close>

fun fscanf_4f :: "fval list \<Rightarrow> fval \<times> fval \<times> fval \<times> fval \<Rightarrow> fval \<times> fval \<times> fval \<times> fval" where
  "fscanf_4f (a # b # c # d # vs) old = (a, b, c, d)"
| "fscanf_4f [a, b, c] (a0, b0, c0, d0) = (a, b, c, d0)"
| "fscanf_4f [a, b] (a0, b0, c0, d0) = (a, b, c0, d0)"
| "fscanf_4f [a] (a0, b0, c0, d0) = (a, b0, c0, d0)"
| "fscanf_4f [] old = old"

text \<open>The body of the loop over the lines of the list of tiles.\<close>

definition tile_step :: "env \<Rightarrow> fval \<Rightarrow> fval \<Rightarrow> fval \<Rightarrow> fval \<Rightarrow> string \<Rightarrow> selection \<Rightarrow> selection" where
  "tile_step E xmin xmax ymin ymax buf st =
     (let tile_dir = strtok_nl (cstr buf);
          ply_extrema = tile_dir @ ''/plyextrema.txt''
      in case fs E ply_extrema of
           None \<Rightarrow> st\<lparr>sel_log := sel_log st @ [Cant_read_extrema ply_extrema]\<rparr>
         | Some ef \<Rightarrow>
             (case fscanf_4f (scanned ef) (sel_ext st) of
                (local_xmin, local_xmax, local_ymin, local_ymax) \<Rightarrow>
                  let st1 = st\<lparr>sel_ext := (local_xmin, local_xmax, local_ymin, local_ymax)\<rparr> in
                  if fle local_xmin xmax \<and> fle xmin local_xmax
                     \<and> fle local_ymin ymax \<and> fle ymin local_ymax then
                    (let ply = tile_dir @ ''/cloud.ply'' in
                     case fs E ply of
                       None \<Rightarrow> st1\<lparr>sel_log := sel_log st1 @ [Cant_open_ply ply]\<rparr>
                     | Some pf \<Rightarrow>
                         (case header_get_record_length_and_utm_zone (fopen pf) (sel_utm st1) of
                            ((isbin, t, utm), f) \<Rightarrow>
                              st1\<lparr>sel_l := push (sel_l st1) ply, sel_utm := utm\<rparr>))
                  else st1))"

function tiles_loop :: "env \<Rightarrow> fval \<Rightarrow> fval \<Rightarrow> fval \<Rightarrow> fval \<Rightarrow> stream \<Rightarrow> selection \<Rightarrow> selection" where
  "tiles_loop E xmin xmax ymin ymax f st =
     (case fgets 1000 f of
        (None, f') \<Rightarrow> st
      | (Some buf, f') \<Rightarrow> tiles_loop E xmin xmax ymin ymax f' (tile_step E xmin xmax ymin ymax buf st))"
  by pat_completeness auto
termination
  by (relation "measure (\<lambda>(E, xmin, xmax, ymin, ymax, f, st). length (input f))")
     (auto dest!: fgets_shorter [OF sym])

declare tiles_loop.simps [simp del]

text \<open>The loop over the list \<^verbatim>\<open>l\<close>.\<close>

fun files_loop :: "env \<Rightarrow> images \<Rightarrow> fval \<Rightarrow> fval \<Rightarrow> fval \<Rightarrow> fval \<Rightarrow> string \<Rightarrow> int \<Rightarrow> string list
    \<Rightarrow> msg list \<times> (halt + images)" where
  "files_loop E x xmin xmax ymin ymax utm col_idx [] = ([], Inr x)"
| "files_loop E x xmin xmax ymin ymax utm col_idx (current # next) =
     (case add_ply_points_to_images E x xmin xmax ymin ymax utm current col_idx of
        (lg, Inl e) \<Rightarrow> (lg, Inl e)
      | (lg, Inr x') \<Rightarrow>
          (case files_loop E x' xmin xmax ymin ymax utm col_idx next of
             (lg', r) \<Rightarrow> (lg @ lg', r)))"

text \<open>Setting the cells without a sample to NaN gives the buffer that is saved.\<close>

definition set_unknown_to_nan :: "images \<Rightarrow> fval list" where
  "set_unknown_to_nan x = map (\<lambda>(c, a). if c = Fin 0 then NaN else a) (zip (cnt x) (avg x))"

text \<open>
  What a run that returns 0 hands to the writers, which are outside the core:
  \<^verbatim>\<open>iio_save_image_float(out_dsm, x.avg, w, h)\<close> and then
  \<^verbatim>\<open>set_geotif_header(out_dsm, utm, xmin, ymax, resolution)\<close>.
\<close>

record written =
  out_file :: string
  raster :: "fval list"
  width :: int
  height :: int
  zone :: string
  xoff :: fval
  yoff :: fval
  scale :: fval

text \<open>
  \<^verbatim>\<open>main\<close>: the messages, and the end of the process or the value returned together
  with the output written, if any.
\<close>

definition main :: "env \<Rightarrow> argv \<Rightarrow> msg list \<times> (halt + int \<times> written option)" where
  "main E a =
     (if a_c a \<noteq> 8 then ([Usage], Inr (1, None))
      else
        let resolution = a_resolution a;
            xmin = a_xmin a; xmax = a_xmax a; ymin = a_ymin a; ymax = a_ymax a;
            lg0 = [Bounds xmin xmax ymin ymax]
        in case fs E (a_tiles a) of
             None \<Rightarrow> (lg0 @ [Cant_read_tiles (a_tiles a)], Inr (1, None))
           | Some tiles \<Rightarrow>
               let st = tiles_loop E xmin xmax ymin ymax (fopen tiles)
                          \<lparr>sel_ext = main_extent E, sel_utm = main_utm E, sel_l = [], sel_log = lg0\<rparr>;
                   lg = sel_log st
               in case to_int (fadd round32 (Fin 1) (fdiv round32 (fsub round32 xmax xmin) resolution)) of
                    None \<Rightarrow> (lg, Inl Undefined)
                  | Some wd \<Rightarrow>
               case to_int (fadd round32 (Fin 1) (fdiv round32 (fsub round32 ymax ymin) resolution)) of
                    None \<Rightarrow> (lg, Inl Undefined)
                  | Some ht \<Rightarrow>
                      let cells = unat (word_of_int wd * word_of_int ht :: 64 word);
                          bytes = unat (word_of_int wd * word_of_int ht * 4 :: 64 word)
                      in if \<not> xmalloc_ok E bytes then (lg, Inl Fail)
                         else if bytes < 4 * cells then (lg, Inl Undefined)
                         else
                           (case files_loop E
                                   \<lparr>cnt = replicate cells (Fin 0), avg = replicate cells (Fin 0),
                                    w = wd, h = ht\<rparr>
                                   xmin xmax ymin ymax (sel_utm st) (a_col_idx a) (sel_l st) of
                              (lg', Inl e) \<Rightarrow> (lg @ lg', Inl e)
                            | (lg', Inr x) \<Rightarrow>
                                (lg @ lg',
                                 Inr (0, Some \<lparr>out_file = a_out_dsm a, raster = set_unknown_to_nan x,
                                                width = wd, height = ht, zone = sel_utm st,
                                                xoff = xmin, yoff = ymax, scale = resolution\<rparr>))))"

section \<open>Notions used in the statements\<close>

text \<open>A text of lines, each ended by a newline.\<close>

definition text_lines :: "string list \<Rightarrow> string" where
  "text_lines ls = concat (map (\<lambda>l. l @ [nl]) ls)"

text \<open>
  A line that \<^verbatim>\<open>fgets\<close> with a buffer of \<open>N\<close> characters reads whole: no newline or
  NUL inside, and shorter than the buffer allows.
\<close>

definition simple_line :: "nat \<Rightarrow> string \<Rightarrow> bool" where
  "simple_line N l \<longleftrightarrow> list_all (\<lambda>c. c \<noteq> nl \<and> c \<noteq> CHR 0x00) l \<and> length l < N - 1"





text \<open>Two small grids.\<close>

definition grid2 :: images where
  "grid2 = \<lparr>cnt = [Fin 1, Fin 0, Fin 2, Fin 0, Fin 0, Fin 0],
            avg = [Fin 4, Fin 0, Fin 3, Fin 0, Fin 0, Fin 0], w = 3, h = 2\<rparr>"


section \<open>Rounding\<close>

lemma bitlen_eq: "2 ^ k \<le> n \<Longrightarrow> n < 2 ^ Suc k \<Longrightarrow> bitlen n = Suc k"
proof (induction k arbitrary: n)
  case 0
  then have "n = 1" by simp
  then show ?case by (simp add: bitlen.simps)
next
  case (Suc k)
  then have "n \<noteq> 0" "2 ^ k \<le> n div 2" "n div 2 < 2 ^ Suc k"
    by auto
  with Suc.IH [of "n div 2"] show ?case
    by (subst bitlen.simps) simp
qed

lemma pow2_pos [simp]: "0 < pow2 e"
  by (simp add: pow2_def)

lemma pow2_nonneg: "0 \<le> e \<Longrightarrow> pow2 e = 2 ^ nat e"
  by (simp add: pow2_def)

lemma pow2_neg: "e < 0 \<Longrightarrow> pow2 e = 1 / 2 ^ nat (- e)"
  by (simp add: pow2_def)

lemma ilog2_unique:
  assumes "pow2 e \<le> q" "q < pow2 (e + 1)"
  shows "ilog2 q = e"
proof (cases "0 \<le> e")
  case True
  define k where "k = nat e"
  have e: "e = int k" using True by (simp add: k_def)
  have lo: "(2 :: rat) ^ k \<le> q" and hi: "q < 2 ^ Suc k"
    using assms True by (simp_all add: pow2_def k_def nat_add_distrib)
  have one: "1 \<le> q"
    using lo one_le_power [of "2 :: rat" k] by linarith
  have "of_int (2 ^ k) \<le> q"
    using lo by simp
  then have fl: "(2 :: int) ^ k \<le> \<lfloor>q\<rfloor>"
    by (simp only: le_floor_iff)
  then have nn: "0 \<le> \<lfloor>q\<rfloor>"
    by (rule order_trans [rotated]) simp
  have a: "2 ^ k \<le> nat \<lfloor>q\<rfloor>"
    using fl nn by (simp add: le_nat_iff)
  have "q < of_int (2 ^ Suc k)"
    using hi by simp
  then have "\<lfloor>q\<rfloor> < 2 ^ Suc k"
    by (simp only: floor_less_iff)
  then have b: "nat \<lfloor>q\<rfloor> < 2 ^ Suc k"
    using nn by (simp add: nat_less_iff)
  show ?thesis
    using bitlen_eq [OF a b] one by (simp add: ilog2_def e)
next
  case False
  define k where "k = nat (- e) - 1"
  have e: "e = - int (Suc k)" using False by (simp add: k_def)
  have ne: "nat (- e) = Suc k" "nat (- (e + 1)) = k"
    using False by (simp_all add: k_def)
  have p1: "pow2 e = 1 / 2 ^ Suc k"
    using False by (simp only: pow2_neg ne)
  have p2: "pow2 (e + 1) = 1 / 2 ^ k"
  proof (cases "e + 1 < 0")
    case True
    then show ?thesis by (simp only: pow2_neg ne)
  next
    case False
    with \<open>\<not> 0 \<le> e\<close> have "e + 1 = 0" by simp
    moreover from this have "k = 0" using ne(2) by simp
    ultimately show ?thesis by (simp add: pow2_def)
  qed
  have qpos: "0 < q"
    using assms(1) pow2_pos [of e] by linarith
  have lt1: "q < 1"
  proof -
    have "(1 :: rat) / 2 ^ k \<le> 1" by simp
    with assms(2) p2 show ?thesis by linarith
  qed
  have up: "1 / q \<le> 2 ^ Suc k"
  proof -
    have "1 \<le> q * 2 ^ Suc k"
      using assms(1) unfolding p1 by (simp add: field_simps)
    then show ?thesis
      using qpos by (simp add: field_simps)
  qed
  have lo: "2 ^ k < 1 / q"
  proof -
    have "q * 2 ^ k < 1"
      using assms(2) unfolding p2 by (simp add: field_simps)
    then show ?thesis
      using qpos by (simp add: field_simps)
  qed
  have "1 / q \<le> of_int (2 ^ Suc k)"
    using up by simp
  then have "\<lceil>1 / q\<rceil> \<le> 2 ^ Suc k"
    by (simp only: ceiling_le_iff)
  then have b0: "\<lceil>1 / q\<rceil> - 1 < 2 ^ Suc k"
    by simp
  have "of_int (2 ^ k) < 1 / q"
    using lo by simp
  then have "(2 :: int) ^ k < \<lceil>1 / q\<rceil>"
    by (simp only: less_ceiling_iff)
  then have a0: "(2 :: int) ^ k \<le> \<lceil>1 / q\<rceil> - 1"
    by simp
  then have nn: "0 \<le> \<lceil>1 / q\<rceil> - 1"
    by (rule order_trans [rotated]) simp
  have a: "2 ^ k \<le> nat (\<lceil>1 / q\<rceil> - 1)"
    using a0 nn by (simp add: le_nat_iff)
  have b: "nat (\<lceil>1 / q\<rceil> - 1) < 2 ^ Suc k"
    using b0 nn by (simp add: nat_less_iff)
  show ?thesis
    using bitlen_eq [OF a b] lt1 by (simp add: ilog2_def e)
qed

lemma round_even_near:
  assumes "\<bar>x - of_int n\<bar> < 1 / 2"
  shows "round_even x = n"
proof (cases "of_int n \<le> x")
  case True
  then have f: "\<lfloor>x\<rfloor> = n"
    using assms by (intro floor_unique) auto
  show ?thesis
    using assms True by (simp add: round_even_def f Let_def)
next
  case False
  then have f: "\<lfloor>x\<rfloor> = n - 1"
    using assms by (intro floor_unique) auto
  show ?thesis
    using assms False by (auto simp: round_even_def f Let_def)
qed


lemma round_to_near:
  assumes "pow2 e \<le> \<bar>q\<bar>" "\<bar>q\<bar> < pow2 (e + 1)"
    and "u = pow2 (max e emin - (int p - 1))"
    and "\<bar>q - of_int n * u\<bar> < u / 2"
    and "max e emin < emax \<or> (max e emin = emax \<and> \<bar>n\<bar> < 2 ^ p)"
  shows "round_to p emin emax q = Fin (of_int n * u)"
proof -
  have "0 < \<bar>q\<bar>"
    using assms(1) pow2_pos [of e] by linarith
  then have q0: "q \<noteq> 0"
    by simp
  have il: "ilog2 \<bar>q\<bar> = e"
    using assms(1,2) by (rule ilog2_unique)
  have upos: "0 < u"
    by (simp add: assms(3))
  have "\<bar>q / u - of_int n\<bar> = \<bar>q - of_int n * u\<bar> / u"
    using upos by (simp add: field_simps abs_if)
  also have "\<dots> < 1 / 2"
    using assms(4) upos by (simp add: field_simps)
  finally have re: "round_even (q / u) = n"
    by (rule round_even_near)
  show ?thesis
    using assms(5) q0 by (auto simp: round_to_def il Let_def assms(3) [symmetric] re)
qed

lemma round_to_exact:
  assumes "pow2 e \<le> \<bar>q\<bar>" "\<bar>q\<bar> < pow2 (e + 1)"
    and "of_int n * pow2 (max e emin - (int p - 1)) = q"
    and "max e emin < emax \<or> (max e emin = emax \<and> \<bar>n\<bar> < 2 ^ p)"
  shows "round_to p emin emax q = Fin q"
  using round_to_near [OF assms(1,2) refl, of n emin p emax] assms(4)
  by (simp add: assms(3))





lemma round64_near:
  assumes "pow2 e \<le> \<bar>q\<bar>" "\<bar>q\<bar> < pow2 (e + 1)" "- 1022 \<le> e" "e < 1023"
    and "\<bar>q - of_int n * pow2 (e - 52)\<bar> < pow2 (e - 52) / 2"
  shows "round64 q = Fin (of_int n * pow2 (e - 52))"
  unfolding round64_def
  using round_to_near [OF assms(1,2) refl, where n = n and emin = "- 1022" and p = 53 and emax = 1023] assms(3,4,5)
  by (simp add: max_def)

lemma round64_exact:
  assumes "pow2 e \<le> \<bar>q\<bar>" "\<bar>q\<bar> < pow2 (e + 1)" "- 1022 \<le> e" "e < 1023"
    and "of_int n * pow2 (e - 52) = q"
  shows "round64 q = Fin q"
  using round64_near [OF assms(1-4), where n = n] by (simp add: assms(5))

lemma round_zero [simp]: "round32 0 = Fin 0" "round64 0 = Fin 0"
  by (simp_all add: round32_def round64_def round_to_def)

section \<open>Reading lines\<close>

lemma text_lines_simps [simp]:
  "text_lines [] = []" "text_lines (l # ls) = l @ nl # text_lines ls"
  by (simp_all add: text_lines_def)

lemma fgets_empty: "input f = [] \<Longrightarrow> fgets N f = (None, f\<lparr>eof := True\<rparr>)"
  by (simp add: fgets_def)

lemma fgets_line:
  assumes "simple_line N l" "input f = l @ nl # r"
  shows "fgets N f = (Some (l @ [nl]), f\<lparr>input := r\<rparr>)"
proof -
  from assms(1) have nonl: "\<forall>c\<in>set l. c \<noteq> nl" and len: "length l < N - 1"
    by (auto simp: simple_line_def list_all_iff)
  obtain k where k: "N - 1 - length l = Suc k"
    using len by (cases "N - 1 - length l") auto
  have "N - Suc (length l) = Suc k"
    using k by simp
  moreover have "take (N - Suc 0) l = l"
    using len by simp
  ultimately have "take (N - 1) (input f) = l @ nl # take k r"
    by (simp add: assms(2))
  then have pre: "takeWhile (\<lambda>c. c \<noteq> nl) (take (N - 1) (input f)) = l"
    using nonl by (simp add: takeWhile_tail)
  show ?thesis
    unfolding fgets_def Let_def pre using len by (simp add: assms(2))
qed

lemma cstr_simple: "simple_line N l \<Longrightarrow> cstr (l @ [nl]) = l @ [nl]"
  by (auto simp: cstr_def simple_line_def list_all_iff nl_def intro!: takeWhile_eq_all_conv [THEN iffD2])

lemma header_loop_lines:
  assumes "list_all (\<lambda>l. simple_line FILENAME_MAX l \<and> l \<noteq> ''end_header'') ls"
    and "input f = text_lines ls @ ''end_header'' @ nl # body"
  shows "header_loop f st =
      (header_line (''end_header'' @ [nl]) (fold (\<lambda>l. header_line (l @ [nl])) ls st), f\<lparr>input := body\<rparr>)"
  using assms
proof (induction ls arbitrary: f st)
  case Nil
  have s: "simple_line FILENAME_MAX ''end_header''"
    by (simp add: simple_line_def FILENAME_MAX_def nl_def)
  from Nil have "fgets FILENAME_MAX f = (Some (''end_header'' @ [nl]), f\<lparr>input := body\<rparr>)"
    by (intro fgets_line [OF s]) simp
  then show ?case
    using cstr_simple [OF s] by (subst header_loop.simps) simp
next
  case (Cons l ls)
  then have s: "simple_line FILENAME_MAX l" and ne: "l \<noteq> ''end_header''"
    by auto
  from Cons.prems have fg: "fgets FILENAME_MAX f
      = (Some (l @ [nl]), f\<lparr>input := text_lines ls @ ''end_header'' @ nl # body\<rparr>)"
    by (intro fgets_line [OF s]) simp
  have "header_loop f st = header_loop (f\<lparr>input := text_lines ls @ ''end_header'' @ nl # body\<rparr>)
      (header_line (l @ [nl]) st)"
    using ne cstr_simple [OF s] by (subst header_loop.simps) (simp add: fg)
  also have "\<dots> = (header_line (''end_header'' @ [nl])
      (fold (\<lambda>l. header_line (l @ [nl])) ls (header_line (l @ [nl]) st)), f\<lparr>input := body\<rparr>)"
    using Cons.prems by (subst Cons.IH) auto
  finally show ?case
    by simp
qed

lemma tiles_loop_lines:
  assumes "list_all (simple_line 1000) ds" "input f = text_lines ds"
  shows "tiles_loop E xmin xmax ymin ymax f st = fold (\<lambda>d. tile_step E xmin xmax ymin ymax (d @ [nl])) ds st"
  using assms
proof (induction ds arbitrary: f st)
  case Nil
  then show ?case
    by (subst tiles_loop.simps) (simp add: fgets_empty)
next
  case (Cons d ds)
  then have s: "simple_line 1000 d"
    by simp
  from Cons.prems have fg: "fgets 1000 f = (Some (d @ [nl]), f\<lparr>input := text_lines ds\<rparr>)"
    by (intro fgets_line [OF s]) simp
  show ?case
    using Cons.prems by (subst tiles_loop.simps) (simp add: fg Cons.IH)
qed

lemma strtok_nl_simple:
  assumes "simple_line N d" "d \<noteq> []"
  shows "strtok_nl (cstr (d @ [nl])) = d"
proof -
  from assms(1) have nonl: "\<forall>c\<in>set d. c \<noteq> nl"
    by (auto simp: simple_line_def list_all_iff)
  with assms(2) have hd: "hd d \<noteq> nl"
    by (cases d) auto
  have dw: "dropWhile (\<lambda>c. c = nl) (d @ [nl]) = d @ [nl]"
    using assms(2) hd by (cases d) auto
  have tw: "takeWhile (\<lambda>c. c = nl) (d @ [nl]) = []"
    using assms(2) hd by (cases d) auto
  have tw2: "takeWhile (\<lambda>c. c \<noteq> nl) (d @ [nl]) = d"
    using nonl by (simp add: takeWhile_tail)
  show ?thesis
    using assms(2) by (simp add: cstr_simple [OF assms(1)] strtok_nl_def dw tw tw2)
qed

section \<open>Properties\<close>

lemma flat_index:
  assumes "0 \<le> i" "i < wd" "0 \<le> j" "j < ht" "wd < 2 ^ 31" "ht < 2 ^ 31"
  shows "unat (word_of_int wd * word_of_int j + word_of_int i :: 64 word) = nat (wd * j + i)"
proof -
  have nonneg: "0 \<le> wd * j + i"
    using assms by simp
  have "wd * j + i < wd * (j + 1)"
    using assms by (simp add: algebra_simps)
  also have "\<dots> \<le> wd * ht"
    using assms by (intro mult_left_mono) auto
  also have "\<dots> < 2 ^ 31 * 2 ^ 31"
    using assms by (intro mult_strict_mono) auto
  finally have bound: "wd * j + i < 2 ^ 64"
    by simp
  have "(word_of_int wd * word_of_int j + word_of_int i :: 64 word) = word_of_int (wd * j + i)"
    by simp
  then have "unat (word_of_int wd * word_of_int j + word_of_int i :: 64 word)
      = nat ((wd * j + i) mod 2 ^ 64)"
    by (simp add: unat_eq_nat_uint uint_word_of_int take_bit_eq_mod del: of_int_add of_int_mult)
  with nonneg bound show ?thesis
    by simp
qed

lemma flat_index_less:
  assumes "0 \<le> i" "i < wd" "0 \<le> j" "j < ht"
  shows "nat (wd * j + i) < nat (wd * ht)"
proof -
  have "wd * j + i < wd * (j + 1)"
    using assms by (simp add: algebra_simps)
  also have "\<dots> \<le> wd * ht"
    using assms by (intro mult_left_mono) auto
  finally show ?thesis
    using assms by simp
qed

lemma add_height_in_range:
  assumes "0 \<le> i" "i < w x" "0 \<le> j" "j < h x" "w x < 2 ^ 31" "h x < 2 ^ 31"
    and "length (avg x) = nat (w x * h x)" "length (cnt x) = nat (w x * h x)"
  shows "add_height_to_images x i j v =
      Some (x\<lparr>avg := (avg x)[nat (w x * j + i) := fdiv round32
                  (fadd round32 v (fmul round32 (cnt x ! nat (w x * j + i)) (avg x ! nat (w x * j + i))))
                  (fadd round32 (Fin 1) (cnt x ! nat (w x * j + i)))],
              cnt := (cnt x)[nat (w x * j + i) := fadd round32 (cnt x ! nat (w x * j + i)) (Fin 1)]\<rparr>)"
proof -
  have k: "unat (word_of_int (w x) * word_of_int j + word_of_int i :: 64 word) = nat (w x * j + i)"
    using assms by (intro flat_index [of i "w x" j "h x"]) auto
  have "nat (w x * j + i) < nat (w x * h x)"
    using assms by (intro flat_index_less) auto
  then show ?thesis
    using assms by (simp add: add_height_to_images_def k Let_def)
qed

text \<open>
  C10. For every grid whose arrays hold \<open>w * h\<close> cells, every cell index \<open>(i, j)\<close> with
  \<open>0 \<le> i < w\<close> and \<open>0 \<le> j < h\<close> and every sample \<open>v\<close>, \<^verbatim>\<open>add_height_to_images\<close>
  changes nothing but the entries of \<open>avg\<close> and \<open>cnt\<close> at the flat index \<open>w * j + i\<close>:
  every other entry of the two arrays and the dimensions \<open>w\<close> and \<open>h\<close> are the same afterwards.
\<close>

theorem add_height_frame:
  assumes "0 \<le> i" "i < w x" "0 \<le> j" "j < h x" "w x < 2 ^ 31" "h x < 2 ^ 31"
    and "length (avg x) = nat (w x * h x)" "length (cnt x) = nat (w x * h x)"
  shows "\<exists>x'. add_height_to_images x i j v = Some x'
           \<and> w x' = w x \<and> h x' = h x
           \<and> length (avg x') = length (avg x) \<and> length (cnt x') = length (cnt x)
           \<and> (\<forall>m. m \<noteq> nat (w x * j + i) \<longrightarrow> avg x' ! m = avg x ! m \<and> cnt x' ! m = cnt x ! m)"
  using add_height_in_range [OF assms, of v] by simp

text \<open>The frame property on a grid of three columns and two rows, at the cell \<open>(2, 1)\<close>.\<close>

theorem add_height_frame_witness:
  "\<exists>x'. add_height_to_images grid2 2 1 (Fin 7) = Some x'
      \<and> w x' = 3 \<and> h x' = 2 \<and> length (avg x') = 6 \<and> length (cnt x') = 6
      \<and> avg x' ! 2 = Fin 3 \<and> cnt x' ! 2 = Fin 2 \<and> avg x' ! 0 = Fin 4 \<and> cnt x' ! 0 = Fin 1"
proof -
  have "\<exists>x'. add_height_to_images grid2 2 1 (Fin 7) = Some x'
           \<and> w x' = w grid2 \<and> h x' = h grid2
           \<and> length (avg x') = length (avg grid2) \<and> length (cnt x') = length (cnt grid2)
           \<and> (\<forall>m. m \<noteq> nat (w grid2 * 1 + 2) \<longrightarrow> avg x' ! m = avg grid2 ! m \<and> cnt x' ! m = cnt grid2 ! m)"
    by (rule add_height_frame) (simp_all add: grid2_def)
  then obtain x' where x': "add_height_to_images grid2 2 1 (Fin 7) = Some x'"
    "w x' = w grid2" "h x' = h grid2" "length (avg x') = length (avg grid2)"
    "length (cnt x') = length (cnt grid2)"
    "\<And>m. m \<noteq> nat (w grid2 * 1 + 2) \<Longrightarrow> avg x' ! m = avg grid2 ! m \<and> cnt x' ! m = cnt grid2 ! m"
    by blast
  have "avg x' ! 2 = avg grid2 ! 2 \<and> cnt x' ! 2 = cnt grid2 ! 2"
    by (rule x'(6)) (simp add: grid2_def)
  moreover have "avg x' ! 0 = avg grid2 ! 0 \<and> cnt x' ! 0 = cnt grid2 ! 0"
    by (rule x'(6)) (simp add: grid2_def)
  ultimately show ?thesis
    using x'(1-5) by (simp add: grid2_def)
qed

















end
